theory Spec2Isabelle
  imports Complex_Main
begin

section \<open>JavaScript strings\<close>

text \<open>
  The program's strings are modelled by \<^typ>\<open>string\<close>. A \<^typ>\<open>char\<close> stands for one
  code unit in the range U+0000 to U+00FF, so that \<open>length\<close> is the \<open>.length\<close> of the
  source on every text of that range.
\<close>

definition isWhiteSpace :: "char \<Rightarrow> bool" where
  \<comment> \<open>The code units that \<open>String.prototype.trim\<close> strips, as far as they are below
      U+0100: TAB, LF, VT, FF, CR, SPACE and NBSP.\<close>
  "isWhiteSpace c \<longleftrightarrow> (of_char c :: nat) \<in> {9, 10, 11, 12, 13, 32, 160}"

definition trim :: "string \<Rightarrow> string" where
  \<comment> \<open>\<open>s.trim()\<close>\<close>
  "trim s = rev (dropWhile isWhiteSpace (rev (dropWhile isWhiteSpace s)))"

definition startsWith :: "string \<Rightarrow> string \<Rightarrow> bool" where
  \<comment> \<open>\<open>s.startsWith(p)\<close>\<close>
  "startsWith s p \<longleftrightarrow> take (length p) s = p"

definition slice :: "string \<Rightarrow> nat \<Rightarrow> string" where
  \<comment> \<open>\<open>s.slice(n)\<close> for a literal \<open>n \<ge> 0\<close>\<close>
  "slice s n = drop n s"

fun js_split :: "char \<Rightarrow> string \<Rightarrow> string list" where
  \<comment> \<open>\<open>s.split(sep)\<close> for a one-character separator: never empty, \<open>''''\<close> gives
      \<open>['''']\<close>, and a trailing separator gives a trailing empty piece.\<close>
  "js_split sep [] = [[]]"
| "js_split sep (c # cs) =
     (if c = sep then [] # js_split sep cs
      else (case js_split sep cs of
              [] \<Rightarrow> [[c]]
            | piece # pieces \<Rightarrow> (c # piece) # pieces))"

definition lowerChar :: "char \<Rightarrow> char" where
  "lowerChar c =
     (let n = (of_char c :: nat)
      in if (65 \<le> n \<and> n \<le> 90) \<or> (192 \<le> n \<and> n \<le> 222 \<and> n \<noteq> 215)
         then char_of (n + 32) else c)"

definition toLowerCase :: "string \<Rightarrow> string" where
  \<comment> \<open>\<open>s.toLowerCase()\<close> on the code units below U+0100\<close>
  "toLowerCase s = map lowerChar s"

definition newline :: char where
  "newline = CHR 0x0A"

section \<open>JSON values and \<open>JSON.parse\<close>\<close>

text \<open>
  \<open>JSON.parse\<close> is a built-in of the platform, not code of this repository. The stream
  decoder below takes it as a parameter \<open>parse\<close> (\<open>None\<close> when it throws a
  SyntaxError), so that every general theorem holds for whatever the built-in returns.
  \<open>json_parse\<close> is an executable model of it after the JSON grammar, used to run the
  decoder on concrete texts.
\<close>

datatype json =
    JNull
  | JBool bool
  | JNumber rat
  | JString string
  | JArray "json list"
  | JObject "(string \<times> json) list"

text \<open>A JavaScript value read out of a parsed text: \<open>None\<close> is \<open>undefined\<close>.\<close>

type_synonym jsval = "json option"

fun toBoolean :: "jsval \<Rightarrow> bool" where
  \<comment> \<open>Truthiness, as \<open>if (v)\<close> tests it. A number literal is kept with its exact value;
      it is read as a double, which is zero iff the value is at most \<open>2^-1075\<close> in
      magnitude (round to nearest, ties to even).\<close>
  "toBoolean None = False"
| "toBoolean (Some JNull) = False"
| "toBoolean (Some (JBool b)) = b"
| "toBoolean (Some (JNumber q)) = (\<bar>q\<bar> > 1 / 2 ^ 1075)"
| "toBoolean (Some (JString s)) = (s \<noteq> [])"
| "toBoolean (Some (JArray xs)) = True"
| "toBoolean (Some (JObject kvs)) = True"

fun getProp :: "json \<Rightarrow> string \<Rightarrow> jsval" where
  \<comment> \<open>\<open>v.name\<close> on a value other than \<open>null\<close>, for a name that no prototype defines
      (\<open>choices\<close>, \<open>delta\<close>, \<open>content\<close>). Of a repeated key the last entry counts.\<close>
  "getProp (JObject kvs) name = map_of (rev kvs) name"
| "getProp v name = None"

fun getIndex0 :: "json \<Rightarrow> jsval" where
  \<comment> \<open>\<open>v[0]\<close> on a value other than \<open>null\<close>\<close>
  "getIndex0 (JArray xs) = (case xs of [] \<Rightarrow> None | x # _ \<Rightarrow> Some x)"
| "getIndex0 (JString s) = (case s of [] \<Rightarrow> None | c # _ \<Rightarrow> Some (JString [c]))"
| "getIndex0 (JObject kvs) = map_of (rev kvs) ''0''"
| "getIndex0 v = None"

fun optChain :: "jsval \<Rightarrow> (json \<Rightarrow> jsval) \<Rightarrow> jsval" where
  \<comment> \<open>\<open>v?.access\<close>: \<open>undefined\<close> when \<open>v\<close> is \<open>undefined\<close> or \<open>null\<close>\<close>
  "optChain None access = None"
| "optChain (Some JNull) access = None"
| "optChain (Some v) access = access v"

datatype js_error = SyntaxError | TypeError

definition delta_content :: "json \<Rightarrow> js_error + jsval" where
  \<comment> \<open>\<open>parsed.choices?.[0]?.delta?.content\<close>; reading \<open>choices\<close> of \<open>null\<close> throws.\<close>
  "delta_content parsed =
     (if parsed = JNull then Inl TypeError
      else Inr (optChain (optChain (optChain (getProp parsed ''choices'') getIndex0)
                  (\<lambda>v. getProp v ''delta'')) (\<lambda>v. getProp v ''content'')))"

subsection \<open>An executable \<open>JSON.parse\<close>\<close>

definition isDigit :: "char \<Rightarrow> bool" where
  "isDigit c \<longleftrightarrow> 48 \<le> (of_char c :: nat) \<and> (of_char c :: nat) \<le> 57"

definition isJsonSpace :: "char \<Rightarrow> bool" where
  \<comment> \<open>The white space of the JSON grammar: TAB, LF, CR and SPACE.\<close>
  "isJsonSpace c \<longleftrightarrow> (of_char c :: nat) \<in> {9, 10, 13, 32}"

definition skipSpace :: "string \<Rightarrow> string" where
  "skipSpace s = dropWhile isJsonSpace s"

definition decimal :: "string \<Rightarrow> nat" where
  "decimal ds = foldl (\<lambda>n c. 10 * n + ((of_char c :: nat) - 48)) 0 ds"

definition hexDigit :: "char \<Rightarrow> nat option" where
  "hexDigit c =
     (let n = (of_char c :: nat)
      in if 48 \<le> n \<and> n \<le> 57 then Some (n - 48)
         else if 65 \<le> n \<and> n \<le> 70 then Some (n - 55)
         else if 97 \<le> n \<and> n \<le> 102 then Some (n - 87)
         else None)"

definition hex4 :: "char \<Rightarrow> char \<Rightarrow> char \<Rightarrow> char \<Rightarrow> nat option" where
  "hex4 a b c d =
     (case (hexDigit a, hexDigit b, hexDigit c, hexDigit d) of
        (Some w, Some x, Some y, Some z) \<Rightarrow> Some (((w * 16 + x) * 16 + y) * 16 + z)
      | _ \<Rightarrow> None)"

definition unescape :: "char \<Rightarrow> char option" where
  \<comment> \<open>The character after a backslash, other than \<open>u\<close>.\<close>
  "unescape e =
     (if e = CHR 0x22 then Some (CHR 0x22)
      else if e = CHR 0x5C then Some (CHR 0x5C)
      else if e = CHR ''/'' then Some (CHR ''/'')
      else if e = CHR ''b'' then Some (CHR 0x08)
      else if e = CHR ''f'' then Some (CHR 0x0C)
      else if e = CHR ''n'' then Some (CHR 0x0A)
      else if e = CHR ''r'' then Some (CHR 0x0D)
      else if e = CHR ''t'' then Some (CHR 0x09)
      else None)"

fun parseString :: "string \<Rightarrow> (string \<times> string) option" where
  \<comment> \<open>The rest of a string literal after its opening quote: the decoded text and the
      input left. An escape \<open>\u\<close> of a code unit above U+00FF has no \<^typ>\<open>char\<close>; such
      texts are outside the model and are given \<open>None\<close>.\<close>
  "parseString [] = None"
| "parseString (c # cs) =
     (if c = CHR 0x22 then Some ([], cs)
      else if c = CHR 0x5C then
        (case cs of
           [] \<Rightarrow> None
         | e # es \<Rightarrow>
             if e = CHR ''u'' then
               (case es of
                  h1 # h2 # h3 # h4 # r \<Rightarrow>
                    (case hex4 h1 h2 h3 h4 of
                       None \<Rightarrow> None
                     | Some n \<Rightarrow>
                         if n < 256 then
                           (case parseString r of
                              None \<Rightarrow> None
                            | Some (t, r') \<Rightarrow> Some (char_of n # t, r'))
                         else None)
                | _ \<Rightarrow> None)
             else
               (case unescape e of
                  None \<Rightarrow> None
                | Some x \<Rightarrow>
                    (case parseString es of
                       None \<Rightarrow> None
                     | Some (t, r') \<Rightarrow> Some (x # t, r'))))
      else if (of_char c :: nat) < 32 then None
      else
        (case parseString cs of
           None \<Rightarrow> None
         | Some (t, r') \<Rightarrow> Some (c # t, r')))"

definition parseNumber :: "string \<Rightarrow> (rat \<times> string) option" where
  \<comment> \<open>\<open>-? (0 | [1-9][0-9]*) (. [0-9]+)? ([eE] [+-]? [0-9]+)?\<close> and its exact value\<close>
  "parseNumber s =
     (let neg = (s \<noteq> [] \<and> hd s = CHR ''-'');
          s1 = (if neg then tl s else s);
          ip = takeWhile isDigit s1;
          s2 = dropWhile isDigit s1
      in if ip = [] \<or> (hd ip = CHR ''0'' \<and> length ip > 1) then None
         else
           (let hasFrac = (s2 \<noteq> [] \<and> hd s2 = CHR ''.'');
                fp = (if hasFrac then takeWhile isDigit (tl s2) else []);
                s3 = (if hasFrac then dropWhile isDigit (tl s2) else s2)
            in if hasFrac \<and> fp = [] then None
               else
                 (let hasExp = (s3 \<noteq> [] \<and> (hd s3 = CHR ''e'' \<or> hd s3 = CHR ''E''));
                      s4 = (if hasExp then tl s3 else s3);
                      eneg = (hasExp \<and> s4 \<noteq> [] \<and> hd s4 = CHR ''-'');
                      s5 = (if hasExp \<and> s4 \<noteq> [] \<and> (hd s4 = CHR ''-'' \<or> hd s4 = CHR ''+'')
                            then tl s4 else s4);
                      ep = (if hasExp then takeWhile isDigit s5 else []);
                      s6 = (if hasExp then dropWhile isDigit s5 else s3)
                  in if hasExp \<and> ep = [] then None
                     else
                       (let m = (of_nat (decimal (ip @ fp)) :: rat) / 10 ^ length fp;
                            v = (if eneg then m / 10 ^ decimal ep else m * 10 ^ decimal ep)
                        in Some (if neg then - v else v, s6)))))"

fun parseValue :: "nat \<Rightarrow> string \<Rightarrow> (json \<times> string) option"
  and parseElements :: "nat \<Rightarrow> string \<Rightarrow> (json list \<times> string) option"
  and parseMembers :: "nat \<Rightarrow> string \<Rightarrow> ((string \<times> json) list \<times> string) option" where
  \<comment> \<open>Recursive descent; the first argument bounds the number of nested calls.
      \<open>parseElements\<close> and \<open>parseMembers\<close> read a non-empty list up to its closing
      bracket.\<close>
  "parseValue 0 s = None"
| "parseValue (Suc n) s =
     (case skipSpace s of
        [] \<Rightarrow> None
      | c # cs \<Rightarrow>
          if c = CHR ''{'' then
            (case skipSpace cs of
               [] \<Rightarrow> None
             | d # ds \<Rightarrow>
                 if d = CHR ''}'' then Some (JObject [], ds)
                 else (case parseMembers n cs of
                         None \<Rightarrow> None
                       | Some (kvs, r) \<Rightarrow> Some (JObject kvs, r)))
          else if c = CHR ''['' then
            (case skipSpace cs of
               [] \<Rightarrow> None
             | d # ds \<Rightarrow>
                 if d = CHR '']'' then Some (JArray [], ds)
                 else (case parseElements n cs of
                         None \<Rightarrow> None
                       | Some (vs, r) \<Rightarrow> Some (JArray vs, r)))
          else if c = CHR 0x22 then
            (case parseString cs of
               None \<Rightarrow> None
             | Some (t, r) \<Rightarrow> Some (JString t, r))
          else if take 4 (c # cs) = ''true'' then Some (JBool True, drop 4 (c # cs))
          else if take 5 (c # cs) = ''false'' then Some (JBool False, drop 5 (c # cs))
          else if take 4 (c # cs) = ''null'' then Some (JNull, drop 4 (c # cs))
          else
            (case parseNumber (c # cs) of
               None \<Rightarrow> None
             | Some (q, r) \<Rightarrow> Some (JNumber q, r)))"
| "parseElements 0 s = None"
| "parseElements (Suc n) s =
     (case parseValue n s of
        None \<Rightarrow> None
      | Some (v, r) \<Rightarrow>
          (case skipSpace r of
             [] \<Rightarrow> None
           | c # cs \<Rightarrow>
               if c = CHR '']'' then Some ([v], cs)
               else if c = CHR '','' then
                 (case parseElements n cs of
                    None \<Rightarrow> None
                  | Some (vs, r') \<Rightarrow> Some (v # vs, r'))
               else None))"
| "parseMembers 0 s = None"
| "parseMembers (Suc n) s =
     (case skipSpace s of
        [] \<Rightarrow> None
      | q # qs \<Rightarrow>
          if q \<noteq> CHR 0x22 then None
          else
            (case parseString qs of
               None \<Rightarrow> None
             | Some (k, r1) \<Rightarrow>
                 (case skipSpace r1 of
                    [] \<Rightarrow> None
                  | c # cs \<Rightarrow>
                      if c \<noteq> CHR '':'' then None
                      else
                        (case parseValue n cs of
                           None \<Rightarrow> None
                         | Some (v, r2) \<Rightarrow>
                             (case skipSpace r2 of
                                [] \<Rightarrow> None
                              | d # ds \<Rightarrow>
                                  if d = CHR ''}'' then Some ([(k, v)], ds)
                                  else if d = CHR '','' then
                                    (case parseMembers n ds of
                                       None \<Rightarrow> None
                                     | Some (kvs, r3) \<Rightarrow> Some ((k, v) # kvs, r3))
                                  else None)))))"

definition json_parse :: "string \<Rightarrow> json option" where
  \<comment> \<open>\<open>JSON.parse(text)\<close>: one value with white space around it and nothing else. Every
      nested call reads at least one character within two levels, so twice the length
      of the text bounds the nesting.\<close>
  "json_parse text =
     (case parseValue (2 * length text + 2) text of
        None \<Rightarrow> None
      | Some (v, r) \<Rightarrow> if skipSpace r = [] then Some v else None)"

section \<open>The stream decoder of \<open>ChatInstanceAPI.streamChat\<close>\<close>

text \<open>
  The callback \<open>onChunk\<close> is a transformer of the caller's state. Whatever it throws is
  caught by the \<open>catch\<close> of the handler together with the errors of parsing, so the
  handler goes on from the state the callback left in either case.
\<close>

type_synonym 'st onChunk = "json \<Rightarrow> 'st \<Rightarrow> 'st"

definition on_payload :: "(string \<Rightarrow> json option) \<Rightarrow> 'st onChunk \<Rightarrow> string \<Rightarrow> 'st \<Rightarrow> 'st" where
  \<comment> \<open>The \<open>try\<close> block: parse the payload, deliver a truthy content, ignore any error.\<close>
  "on_payload parse onChunk data st =
     (case parse data of
        None \<Rightarrow> st
      | Some parsed \<Rightarrow>
          (case delta_content parsed of
             Inl e \<Rightarrow> st
           | Inr c \<Rightarrow>
               (case c of
                  None \<Rightarrow> st
                | Some v \<Rightarrow> if toBoolean c then onChunk v st else st)))"

fun on_lines :: "(string \<Rightarrow> json option) \<Rightarrow> 'st onChunk \<Rightarrow> string list \<Rightarrow> 'st \<Rightarrow> 'st \<times> bool" where
  \<comment> \<open>The \<open>for\<close> loop over the lines of one chunk. The flag says that \<open>resolve()\<close> was
      called: the handler returns there and leaves the rest of the chunk.\<close>
  "on_lines parse onChunk [] st = (st, False)"
| "on_lines parse onChunk (line # lines) st =
     (if startsWith line ''data: '' then
        (let data = trim (slice line 6)
         in if data = ''[DONE]'' then (st, True)
            else on_lines parse onChunk lines (on_payload parse onChunk data st))
      else on_lines parse onChunk lines st)"

definition on_data :: "(string \<Rightarrow> json option) \<Rightarrow> 'st onChunk \<Rightarrow> string \<Rightarrow> 'st \<Rightarrow> 'st \<times> bool" where
  \<comment> \<open>The \<open>'data'\<close> handler; \<open>chunk\<close> is \<open>chunk.toString()\<close>.\<close>
  "on_data parse onChunk chunk st = on_lines parse onChunk (js_split newline chunk) st"

fun on_chunks :: "(string \<Rightarrow> json option) \<Rightarrow> 'st onChunk \<Rightarrow> string list \<Rightarrow> 'st \<Rightarrow> 'st \<times> bool" where
  \<comment> \<open>The handler stays installed after \<open>resolve()\<close>: it runs on every chunk that is
      dispatched, and the flag says whether any of them reached the sentinel.\<close>
  "on_chunks parse onChunk [] st = (st, False)"
| "on_chunks parse onChunk (chunk # chunks) st =
     (case on_data parse onChunk chunk st of
        (st1, r1) \<Rightarrow>
          (case on_chunks parse onChunk chunks st1 of
             (st2, r2) \<Rightarrow> (st2, r1 \<or> r2)))"

datatype stream_end = End | StreamError string

datatype stream_response =
    PostError string
  | Body "string list" stream_end

datatype settled = Resolved | Rejected string

definition streamChat ::
  "(string \<Rightarrow> json option) \<Rightarrow> 'st onChunk \<Rightarrow> stream_response \<Rightarrow> 'st \<Rightarrow> 'st \<times> settled" where
  \<comment> \<open>The call up to the point where the awaiting caller resumes. \<open>response\<close> is what
      \<open>this.client.post\<close> settles to: a rejection, or a body; \<open>chunks\<close> are the chunks
      dispatched before the caller resumes and \<open>fin\<close> is the \<open>'end'\<close> or \<open>'error'\<close> of the
      body, which settles the promise if no chunk has. The promise keeps its first
      settlement.\<close>
  "streamChat parse onChunk response st =
     (case response of
        PostError e \<Rightarrow> (st, Rejected e)
      | Body chunks fin \<Rightarrow>
          (case on_chunks parse onChunk chunks st of
             (st', resolved) \<Rightarrow>
               (st', if resolved then Resolved
                     else (case fin of End \<Rightarrow> Resolved | StreamError e \<Rightarrow> Rejected e))))"

definition late_data ::
  "(string \<Rightarrow> json option) \<Rightarrow> 'st onChunk \<Rightarrow> stream_response \<Rightarrow> string list \<Rightarrow> 'st \<Rightarrow> 'st" where
  \<comment> \<open>The \<open>'data'\<close> listener is never removed. A body whose chunk resolved the promise at
      the sentinel has not ended, and the chunks it emits after the caller has resumed
      still run the handler on the state of the callback. After \<open>'end'\<close> or \<open>'error'\<close> a
      body emits no chunk.\<close>
  "late_data parse onChunk response chunks st =
     (case response of
        PostError e \<Rightarrow> st
      | Body early fin \<Rightarrow>
          if snd (on_chunks parse onChunk early st) then fst (on_chunks parse onChunk chunks st)
          else st)"

definition delivered :: "(string \<Rightarrow> json option) \<Rightarrow> string list \<Rightarrow> json list" where
  \<comment> \<open>The arguments of the calls of \<open>onChunk\<close>, in order: the decoder run with a callback
      that records them.\<close>
  "delivered parse chunks = fst (on_chunks parse (\<lambda>v acc. acc @ [v]) chunks [])"

section \<open>The interactive loop of \<open>chatCommand\<close>\<close>

datatype role = System | User | Assistant

record ChatMessage =
  role :: role
  content :: string

record ChatRequest =
  req_provider :: string
  req_model :: string
  req_messages :: "ChatMessage list"
  req_stream :: "bool option"

text \<open>
  The response of the non-streaming call, as far as the loop reads it: the contents of
  \<open>choices[i].message\<close> and \<open>usage.total_tokens\<close>; or the rejection of the call.
\<close>

datatype chat_response =
    ChatError string
  | ChatOk "string list" nat

record options =
  opt_provider :: "string option"
  opt_model :: "string option"
  opt_system :: "string option"
  opt_stream :: "bool option"

record config =
  apiKey :: "string option"
  defaultProvider :: "string option"
  defaultModel :: "string option"
  streamResponse :: "bool option"

text \<open>The constants of one session: \<open>provider\<close>, \<open>model\<close>, \<open>useStream\<close> and \<open>options.system\<close>.\<close>

record session =
  provider :: string
  model :: string
  useStream :: bool
  system :: "string option"

definition or_else :: "string option \<Rightarrow> string \<Rightarrow> string" where
  \<comment> \<open>\<open>a || b\<close> for an optional string \<open>a\<close>: \<open>undefined\<close> and the empty string are falsy.\<close>
  "or_else a b = (case a of None \<Rightarrow> b | Some s \<Rightarrow> if s = [] then b else s)"

definition config_get :: "'a option \<Rightarrow> 'a \<Rightarrow> 'a" where
  \<comment> \<open>\<open>config.get(key, defaultValue)\<close>\<close>
  "config_get value dflt = (case value of None \<Rightarrow> dflt | Some v \<Rightarrow> v)"

definition chat_session :: "options \<Rightarrow> config \<Rightarrow> session option" where
  \<comment> \<open>Lines 19 to 28; \<open>None\<close> is the exit without an API key.\<close>
  "chat_session opts cfg =
     (if or_else (apiKey cfg) [] = [] then None
      else Some \<lparr>
        provider = or_else (opt_provider opts) (config_get (defaultProvider cfg) ''chatgpt''),
        model = or_else (opt_model opts) (config_get (defaultModel cfg) ''gpt-4o''),
        useStream = (if opt_stream opts = Some True then True
                     else config_get (streamResponse cfg) False),
        system = opt_system opts \<rparr>)"

text \<open>
  What the loop prints, one constructor for each message. Blank lines, separators, the
  spinner and colours are not recorded. \<open>TypeErrorLine\<close> is the error line with the message
  of the TypeError that the engine throws on reading \<open>message\<close> of \<open>undefined\<close>.
\<close>

datatype printed =
    Help
  | Goodbye
  | ClearScreen
  | Connected string string
  | Cleared
  | Switched string
  | ProviderUsage
  | EstimatedTokens int
  | UnknownCommand string
  | AIPrefix
  | Write string
  | AILabel
  | Reply string
  | Tokens nat
  | ErrorLine string
  | TypeErrorLine
  | ChatFailed

record state =
  messages :: "ChatMessage list"
  terminal :: "printed list"
  sent :: "ChatRequest list"
  exited :: bool

text \<open>
  One pass of the loop reads a line; on a chat turn the transport answers the request
  in the way the environment decides, here part of the event. \<open>late\<close> holds the chunks
  that the body of a streamed turn emits after the caller has resumed; they are taken to
  be dispatched before the next line is read.
\<close>

record event =
  input :: string
  streamed :: stream_response
  answered :: chat_response
  late :: "string list"

definition system_messages :: "session \<Rightarrow> ChatMessage list" where
  \<comment> \<open>\<open>if (options.system) messages.push({ role: 'system', content: options.system })\<close>\<close>
  "system_messages ses =
     (case system ses of
        None \<Rightarrow> []
      | Some s \<Rightarrow> if s = [] then [] else [\<lparr>role = System, content = s\<rparr>])"

definition initial :: "session \<Rightarrow> state" where
  "initial ses =
     \<lparr>messages = system_messages ses,
      terminal = [ClearScreen, Connected (provider ses) (model ses)],
      sent = [], exited = False\<rparr>"

definition print :: "printed list \<Rightarrow> state \<Rightarrow> state" where
  "print out st = st\<lparr>terminal := terminal st @ out\<rparr>"

definition totalTokens :: "ChatMessage list \<Rightarrow> rat" where
  \<comment> \<open>\<open>messages.reduce((sum, msg) => sum + (msg.content.length / 4), 0)\<close>. The summands
      are multiples of a quarter, which doubles add without rounding below \<open>2^51\<close>.\<close>
  "totalTokens msgs = foldl (\<lambda>sum msg. sum + of_nat (length (content msg)) / 4) 0 msgs"

definition slash_command :: "session \<Rightarrow> string \<Rightarrow> state \<Rightarrow> state" where
  \<comment> \<open>The \<open>switch\<close> on the command of a line that starts with a slash. \<open>split\<close>
      never gives an empty array; on one, \<open>command\<close> would be \<open>undefined\<close> and the
      call of \<open>toLowerCase\<close> would throw into the outer \<open>catch\<close>, which exits.\<close>
  "slash_command ses userInput st =
     (case js_split CHR '' '' (slice userInput 1) of
        [] \<Rightarrow> (print [ChatFailed] st)\<lparr>exited := True\<rparr>
      | command # args \<Rightarrow>
          (let c = toLowerCase command
           in if c = ''help'' then print [Help] st
              else if c = ''exit'' \<or> c = ''quit'' then (print [Goodbye] st)\<lparr>exited := True\<rparr>
              else if c = ''clear'' then
                print [ClearScreen, Connected (provider ses) (model ses), Cleared]
                  (st\<lparr>messages := system_messages ses\<rparr>)
              else if c = ''provider'' then
                (case args of
                   [] \<Rightarrow> print [ProviderUsage] st
                 | a # _ \<Rightarrow> if a \<noteq> [] then print [Switched a] st
                            else print [ProviderUsage] st)
              else if c = ''tokens'' then
                print [EstimatedTokens \<lceil>totalTokens (messages st)\<rceil>] st
              else print [UnknownCommand command] st))"

definition chat_onChunk :: "(printed list \<times> string) onChunk" where
  \<comment> \<open>\<open>(chunk) => { process.stdout.write(chunk); response += chunk; }\<close> on the pair of
      the terminal and \<open>response\<close>. \<open>write\<close> throws on a value that is not a string,
      before \<open>response\<close> is touched.\<close>
  "chat_onChunk chunk tr =
     (case chunk of
        JString s \<Rightarrow> (fst tr @ [Write s], snd tr @ s)
      | _ \<Rightarrow> tr)"

definition chat_turn :: "(string \<Rightarrow> json option) \<Rightarrow> session \<Rightarrow> event \<Rightarrow> string \<Rightarrow> state \<Rightarrow> state" where
  \<comment> \<open>Lines 105 to 156: the user message is pushed, then the call is made inside
      \<open>try\<close>; the assistant message is pushed after the call has returned, and what
      the callback does on late chunks comes after that: it writes, and appends to a
      \<open>response\<close> that is read no more. Reading
      \<open>choices[0].message\<close> of a response without choices throws a TypeError, after
      the label is printed; \<open>catch\<close> prints the message of whatever was thrown.\<close>
  "chat_turn parse ses ev userInput st =
     (let st1 = st\<lparr>messages := messages st @ [\<lparr>role = User, content = userInput\<rparr>]\<rparr>
      in if useStream ses then
           (let request = \<lparr>req_provider = provider ses, req_model = model ses,
                           req_messages = messages st1, req_stream = Some True\<rparr>;
                st2 = (print [AIPrefix] st1)\<lparr>sent := sent st1 @ [request]\<rparr>
            in case streamChat parse chat_onChunk (streamed ev) (terminal st2, []) of
                 ((term, response), Resolved) \<Rightarrow>
                   (let st3 = st2\<lparr>terminal := term,
                                  messages := messages st2 @
                                    [\<lparr>role = Assistant, content = response\<rparr>]\<rparr>
                    in st3\<lparr>terminal :=
                          fst (late_data parse chat_onChunk (streamed ev) (late ev)
                                 (terminal st3, response))\<rparr>)
               | ((term, response), Rejected e) \<Rightarrow>
                   st2\<lparr>terminal := term @ [ErrorLine e]\<rparr>)
         else
           (let request = \<lparr>req_provider = provider ses, req_model = model ses,
                           req_messages = messages st1, req_stream = None\<rparr>;
                st2 = st1\<lparr>sent := sent st1 @ [request]\<rparr>
            in case answered ev of
                 ChatError e \<Rightarrow> print [ErrorLine e] st2
               | ChatOk choices used \<Rightarrow>
                   (case choices of
                      [] \<Rightarrow> print [AILabel, TypeErrorLine] st2
                    | c # _ \<Rightarrow>
                        (print [AILabel, Reply c, Tokens used] st2)
                          \<lparr>messages := messages st2 @ [\<lparr>role = Assistant, content = c\<rparr>]\<rparr>)))"

definition loop_body :: "(string \<Rightarrow> json option) \<Rightarrow> session \<Rightarrow> event \<Rightarrow> state \<Rightarrow> state" where
  \<comment> \<open>One pass of \<open>while (true)\<close>. A line that is empty after trimming is refused by
      \<open>validate\<close> and asked for again.\<close>
  "loop_body parse ses ev st =
     (let userInput = trim (input ev)
      in if userInput = [] then st
         else if startsWith userInput ''/'' then slash_command ses userInput st
         else chat_turn parse ses ev userInput st)"

fun chat_loop :: "(string \<Rightarrow> json option) \<Rightarrow> session \<Rightarrow> event list \<Rightarrow> state \<Rightarrow> state" where
  \<comment> \<open>The passes of the loop over the lines read so far; \<open>process.exit\<close> ends it.\<close>
  "chat_loop parse ses [] st = st"
| "chat_loop parse ses (ev # evs) st =
     (if exited st then st else chat_loop parse ses evs (loop_body parse ses ev st))"

definition chatCommand ::
  "(string \<Rightarrow> json option) \<Rightarrow> options \<Rightarrow> config \<Rightarrow> event list \<Rightarrow> state option" where
  \<comment> \<open>The command on the lines read so far; \<open>None\<close> when it exits before the loop.\<close>
  "chatCommand parse opts cfg evs =
     (case chat_session opts cfg of
        None \<Rightarrow> None
      | Some ses \<Rightarrow> Some (chat_loop parse ses evs (initial ses)))"

text \<open>
  The command of a line, for stating properties: the word between the slash and the
  first space of the trimmed line, in lower case; \<open>None\<close> for a line that is not a command.
\<close>

definition command_word :: "string \<Rightarrow> string option" where
  "command_word line =
     (let u = trim line
      in if startsWith u ''/''
         then Some (toLowerCase (takeWhile (\<lambda>c. c \<noteq> CHR '' '') (slice u 1)))
         else None)"

text \<open>
  Notions for stating properties of the decoder: the lines it reads as event data, the
  line that carries the sentinel, and the value a payload hands to \<open>onChunk\<close>, if any.
\<close>

definition data_line :: "string \<Rightarrow> bool" where
  "data_line line \<longleftrightarrow> startsWith line ''data: ''"

definition sentinel_line :: "string \<Rightarrow> bool" where
  "sentinel_line line \<longleftrightarrow> startsWith line ''data: '' \<and> trim (slice line 6) = ''[DONE]''"

definition fragment :: "(string \<Rightarrow> json option) \<Rightarrow> string \<Rightarrow> json option" where
  "fragment parse data =
     (case parse data of
        None \<Rightarrow> None
      | Some parsed \<Rightarrow>
          (case delta_content parsed of
             Inl e \<Rightarrow> None
           | Inr c \<Rightarrow> if toBoolean c then c else None))"

text \<open>
  A payload is malformed when the \<open>try\<close> block gets no content out of it: it does not
  parse, or reading the content throws, or the content is missing or falsy.
\<close>

definition malformed :: "(string \<Rightarrow> json option) \<Rightarrow> string \<Rightarrow> bool" where
  "malformed parse data \<longleftrightarrow>
     (case parse data of
        None \<Rightarrow> True
      | Some parsed \<Rightarrow>
          (case delta_content parsed of
             Inl e \<Rightarrow> True
           | Inr c \<Rightarrow> \<not> toBoolean c))"

text \<open>
  An event stream is taken as well formed when no data line follows the line of the
  sentinel; a list of chunks is aligned when every cut between two chunks lies next to
  a line terminator: the chunk before it ends with one, or the chunk after it starts
  with one (or the chunk before it is empty).
\<close>

fun quiet_after_sentinel :: "string list \<Rightarrow> bool" where
  "quiet_after_sentinel [] = True"
| "quiet_after_sentinel (line # lines) =
     (if sentinel_line line then \<not> list_ex data_line lines
      else quiet_after_sentinel lines)"

definition well_formed :: "string \<Rightarrow> bool" where
  "well_formed text = quiet_after_sentinel (js_split newline text)"

fun line_aligned :: "string list \<Rightarrow> bool" where
  "line_aligned (c # d # chunks) \<longleftrightarrow>
     (c = [] \<or> last c = newline \<or> (d \<noteq> [] \<and> hd d = newline)) \<and> line_aligned (d # chunks)"
| "line_aligned chunks \<longleftrightarrow> True"


text \<open>
  Notions for stating properties of a chat turn. The strings among the delivered values
  are the fragments the callback of the loop writes and appends. The settlement of a
  call does not depend on the callback. A chat line is an accepted line that is not a
  command. A turn fails when the call of its mode rejects or, without streaming, the
  response has no choice to read. The complete reply of a turn is the text of all the
  fragments that a stream delivered until its call resolved and returned, or the content
  of the response that returned.
\<close>

definition texts :: "json list \<Rightarrow> string list" where
  "texts vs = concat (map (\<lambda>v. case v of JString s \<Rightarrow> [s] | _ \<Rightarrow> []) vs)"

definition settlement :: "(string \<Rightarrow> json option) \<Rightarrow> stream_response \<Rightarrow> settled" where
  "settlement parse response = snd (streamChat parse (\<lambda>v u. u) response ())"

definition chat_line :: "string \<Rightarrow> bool" where
  "chat_line line \<longleftrightarrow> trim line \<noteq> [] \<and> \<not> startsWith (trim line) ''/''"

definition turn_fails :: "(string \<Rightarrow> json option) \<Rightarrow> session \<Rightarrow> event \<Rightarrow> bool" where
  "turn_fails parse ses ev \<longleftrightarrow>
     (if useStream ses then settlement parse (streamed ev) \<noteq> Resolved
      else (case answered ev of ChatError e \<Rightarrow> True | ChatOk choices used \<Rightarrow> choices = []))"

definition complete_reply :: "(string \<Rightarrow> json option) \<Rightarrow> session \<Rightarrow> event \<Rightarrow> string option" where
  "complete_reply parse ses ev =
     (if \<not> chat_line (input ev) then None
      else if useStream ses then
        (case streamed ev of
           PostError e \<Rightarrow> None
         | Body chunks fin \<Rightarrow>
             if settlement parse (streamed ev) = Resolved
             then Some (concat (texts (delivered parse chunks))) else None)
      else
        (case answered ev of
           ChatError e \<Rightarrow> None
         | ChatOk choices used \<Rightarrow> (case choices of [] \<Rightarrow> None | c # _ \<Rightarrow> Some c)))"

section \<open>Strings: splitting and trimming\<close>

lemma js_split_nonempty: "js_split sep s \<noteq> []"
  by (induction s) (auto split: list.splits)

lemma hd_js_split: "hd (js_split sep s) = takeWhile (\<lambda>c. c \<noteq> sep) s"
  by (induction s) (auto split: list.splits simp: js_split_nonempty)

lemma js_split_cases:
  obtains args where "js_split sep s = takeWhile (\<lambda>c. c \<noteq> sep) s # args"
  using hd_js_split [of sep s] js_split_nonempty [of sep s]
  by (cases "js_split sep s") auto

lemma rtrim_keeps_head:
  "xs \<noteq> [] \<Longrightarrow> \<not> P (hd xs) \<Longrightarrow>
   rev (dropWhile P (rev xs)) \<noteq> [] \<and> hd (rev (dropWhile P (rev xs))) = hd xs"
  by (induction xs rule: rev_induct) (auto simp: hd_append)

lemma dropWhile_fix: "xs = [] \<or> \<not> P (hd xs) \<Longrightarrow> dropWhile P xs = xs"
  by (cases xs) auto

lemma hd_dropWhile_not: "dropWhile P xs = [] \<or> \<not> P (hd (dropWhile P xs))"
  using hd_dropWhile by blast

lemma trim_idem: "trim (trim s) = trim s"
proof -
  define u where "u = dropWhile isWhiteSpace s"
  define r where "r = dropWhile isWhiteSpace (rev u)"
  have t: "trim s = rev r" by (simp add: trim_def u_def r_def)
  have u: "u = [] \<or> \<not> isWhiteSpace (hd u)" unfolding u_def by (rule hd_dropWhile_not)
  have "rev r = [] \<or> \<not> isWhiteSpace (hd (rev r))"
  proof (cases "u = []")
    case True then show ?thesis by (simp add: r_def)
  next
    case False
    with u rtrim_keeps_head [of u isWhiteSpace] show ?thesis by (simp add: r_def)
  qed
  then have 1: "dropWhile isWhiteSpace (rev r) = rev r" by (rule dropWhile_fix)
  have 2: "dropWhile isWhiteSpace r = r" unfolding r_def by (rule dropWhile_idem)
  show ?thesis unfolding t by (simp add: trim_def [of "rev r"] 1 2)
qed

section \<open>Slash commands\<close>

lemma totalTokens_sum:
  "totalTokens msgs = of_nat (sum_list (map (\<lambda>m. length (content m)) msgs)) / 4"
proof -
  have "foldl (\<lambda>sum msg. sum + of_nat (length (content msg)) / 4) a msgs
        = a + (of_nat (sum_list (map (\<lambda>m. length (content m)) msgs)) :: rat) / 4" for a
    by (induction msgs arbitrary: a) (simp_all add: add_divide_distrib algebra_simps)
  from this [of 0] show ?thesis by (simp add: totalTokens_def)
qed

lemma slash_command_word:
  assumes "command_word line = Some w"
  obtains command args where
    "js_split CHR '' '' (slice (trim line) 1) = command # args" "toLowerCase command = w"
proof -
  from assms have w: "w = toLowerCase (takeWhile (\<lambda>c. c \<noteq> CHR '' '') (slice (trim line) 1))"
    by (auto simp: command_word_def Let_def split: if_splits)
  obtain args where "js_split CHR '' '' (slice (trim line) 1)
      = takeWhile (\<lambda>c. c \<noteq> CHR '' '') (slice (trim line) 1) # args"
    by (rule js_split_cases)
  with w that show thesis by blast
qed

lemma loop_body_command:
  assumes "command_word (input ev) = Some w"
  shows "\<exists>command args. js_split CHR '' '' (slice (trim (input ev)) 1) = command # args
     \<and> toLowerCase command = w
     \<and> loop_body parse ses ev st = slash_command ses (trim (input ev)) st"
proof -
  from assms have s: "startsWith (trim (input ev)) ''/''"
    by (auto simp: command_word_def Let_def split: if_splits)
  then have ne: "trim (input ev) \<noteq> []" by (auto simp: startsWith_def)
  from assms obtain command args where
    "js_split CHR '' '' (slice (trim (input ev)) 1) = command # args" "toLowerCase command = w"
    by (rule slash_command_word)
  with s ne show ?thesis by (simp add: loop_body_def Let_def)
qed

text \<open>
  Claim C6. Whatever the state, a \<open>/clear\<close> line leaves a transcript that is empty when
  no system prompt was configured and otherwise holds the configured system message
  alone; that is the transcript the session started with. No request is sent.
\<close>

theorem clear_resets_transcript:
  assumes "command_word (input ev) = Some ''clear''"
  shows "messages (loop_body parse ses ev st) =
           (case system ses of
              None \<Rightarrow> []
            | Some s \<Rightarrow> if s = [] then [] else [\<lparr>role = System, content = s\<rparr>])
         \<and> messages (loop_body parse ses ev st) = messages (initial ses)
         \<and> sent (loop_body parse ses ev st) = sent st"
proof -
  from loop_body_command [OF assms, of parse ses st] obtain command args where
    "js_split CHR '' '' (slice (trim (input ev)) 1) = command # args"
    "toLowerCase command = ''clear''"
    "loop_body parse ses ev st = slash_command ses (trim (input ev)) st" by blast
  then show ?thesis
    by (simp add: slash_command_def print_def system_messages_def initial_def
        split: option.splits)
qed

theorem clear_resets_transcript_witness:
  "command_word (input \<lparr>input = ''/clear'', streamed = PostError [], answered = ChatError [], late = []\<rparr>)
     = Some ''clear''
   \<and> messages (loop_body json_parse
        \<lparr>provider = ''chatgpt'', model = ''gpt-4o'', useStream = True,
         system = Some ''You are terse.''\<rparr>
        \<lparr>input = ''/clear'', streamed = PostError [], answered = ChatError [], late = []\<rparr>
        \<lparr>messages = [\<lparr>role = System, content = ''You are terse.''\<rparr>,
                     \<lparr>role = User, content = ''hi''\<rparr>,
                     \<lparr>role = Assistant, content = ''Hello.''\<rparr>,
                     \<lparr>role = User, content = ''bye''\<rparr>,
                     \<lparr>role = Assistant, content = ''Bye.''\<rparr>],
         terminal = [], sent = [], exited = False\<rparr>)
     = [\<lparr>role = System, content = ''You are terse.''\<rparr>]"
proof -
  have h: "command_word (input \<lparr>input = ''/clear'', streamed = PostError [], answered = ChatError [], late = []\<rparr>)
     = Some ''clear''"
    by code_simp
  from clear_resets_transcript [OF h] h show ?thesis by simp
qed

text \<open>
  Claim C9. A \<open>/tokens\<close> line prints the total length of the message contents divided by
  four and rounded up, and leaves the transcript as it was.
\<close>

theorem tokens_estimate:
  assumes "command_word (input ev) = Some ''tokens''"
  shows "terminal (loop_body parse ses ev st) =
           terminal st @
           [EstimatedTokens
              \<lceil>(of_nat (sum_list (map (\<lambda>m. length (content m)) (messages st))) :: rat) / 4\<rceil>]
         \<and> messages (loop_body parse ses ev st) = messages st"
proof -
  from loop_body_command [OF assms, of parse ses st] obtain command args where
    "js_split CHR '' '' (slice (trim (input ev)) 1) = command # args"
    "toLowerCase command = ''tokens''"
    "loop_body parse ses ev st = slash_command ses (trim (input ev)) st" by blast
  then show ?thesis
    by (simp add: slash_command_def print_def totalTokens_sum)
qed

theorem tokens_estimate_witness:
  "command_word (input \<lparr>input = '' /Tokens '', streamed = PostError [], answered = ChatError [], late = []\<rparr>)
     = Some ''tokens''
   \<and> terminal (loop_body json_parse
        \<lparr>provider = ''chatgpt'', model = ''gpt-4o'', useStream = False, system = None\<rparr>
        \<lparr>input = '' /Tokens '', streamed = PostError [], answered = ChatError [], late = []\<rparr>
        \<lparr>messages = [\<lparr>role = User, content = ''hi''\<rparr>,
                     \<lparr>role = Assistant, content = ''Hello.''\<rparr>,
                     \<lparr>role = User, content = ''b''\<rparr>],
         terminal = [], sent = [], exited = False\<rparr>)
     = [EstimatedTokens 3]"
proof -
  have h: "command_word (input \<lparr>input = '' /Tokens '', streamed = PostError [], answered = ChatError [], late = []\<rparr>)
     = Some ''tokens''"
    by code_simp
  have c: "\<lceil>(9::rat) / 4\<rceil> = 3" by (simp add: ceiling_unique)
  from tokens_estimate [OF h] h c show ?thesis by simp
qed

section \<open>Chat turns\<close>

text \<open>
  Claim C10. A line that is accepted (not empty after trimming) is handled as its
  trimmed form is, and on a chat turn the user message appended to the transcript holds
  the trimmed line.
\<close>

theorem user_message_is_trimmed:
  assumes "trim (input ev) \<noteq> []"
  shows "loop_body parse ses ev st = loop_body parse ses (ev\<lparr>input := trim (input ev)\<rparr>) st
         \<and> (\<not> startsWith (trim (input ev)) ''/'' \<longrightarrow>
              (\<exists>rest. messages (loop_body parse ses ev st)
                 = messages st @ \<lparr>role = User, content = trim (input ev)\<rparr> # rest))"
proof
  show "loop_body parse ses ev st = loop_body parse ses (ev\<lparr>input := trim (input ev)\<rparr>) st"
    by (simp add: loop_body_def trim_idem chat_turn_def Let_def
        split: prod.splits settled.splits)
next
  show "\<not> startsWith (trim (input ev)) ''/'' \<longrightarrow>
        (\<exists>rest. messages (loop_body parse ses ev st)
           = messages st @ \<lparr>role = User, content = trim (input ev)\<rparr> # rest)"
    using assms
    by (auto simp: loop_body_def chat_turn_def Let_def print_def
        split: prod.splits settled.splits chat_response.splits list.splits)
qed

theorem user_message_is_trimmed_witness:
  "trim (input \<lparr>input = ''  hi there  '', streamed = PostError [], answered = ChatOk [''Hello.''] 7, late = []\<rparr>) \<noteq> []
   \<and> \<not> startsWith (trim (input \<lparr>input = ''  hi there  '', streamed = PostError [], answered = ChatOk [''Hello.''] 7, late = []\<rparr>)) ''/''
   \<and> messages (loop_body json_parse
        \<lparr>provider = ''chatgpt'', model = ''gpt-4o'', useStream = False, system = None\<rparr>
        \<lparr>input = ''  hi there  '', streamed = PostError [], answered = ChatOk [''Hello.''] 7, late = []\<rparr>
        \<lparr>messages = [], terminal = [], sent = [], exited = False\<rparr>)
     = [\<lparr>role = User, content = ''hi there''\<rparr>, \<lparr>role = Assistant, content = ''Hello.''\<rparr>]"
proof -
  have h: "trim (input \<lparr>input = ''  hi there  '', streamed = PostError [], answered = ChatOk [''Hello.''] 7, late = []\<rparr>) = ''hi there''"
    by code_simp
  then have ne: "trim (input \<lparr>input = ''  hi there  '', streamed = PostError [], answered = ChatOk [''Hello.''] 7, late = []\<rparr>) \<noteq> []"
    by simp
  have s: "\<not> startsWith ''hi there'' ''/''" by code_simp
  from user_message_is_trimmed [OF ne, of json_parse
        "\<lparr>provider = ''chatgpt'', model = ''gpt-4o'', useStream = False, system = None\<rparr>"
        "\<lparr>messages = [], terminal = [], sent = [], exited = False\<rparr>"]
  have "loop_body json_parse
        \<lparr>provider = ''chatgpt'', model = ''gpt-4o'', useStream = False, system = None\<rparr>
        \<lparr>input = ''  hi there  '', streamed = PostError [], answered = ChatOk [''Hello.''] 7, late = []\<rparr>
        \<lparr>messages = [], terminal = [], sent = [], exited = False\<rparr>
      = loop_body json_parse
        \<lparr>provider = ''chatgpt'', model = ''gpt-4o'', useStream = False, system = None\<rparr>
        \<lparr>input = ''hi there'', streamed = PostError [], answered = ChatOk [''Hello.''] 7, late = []\<rparr>
        \<lparr>messages = [], terminal = [], sent = [], exited = False\<rparr>"
    using h by simp
  moreover have "messages (loop_body json_parse
        \<lparr>provider = ''chatgpt'', model = ''gpt-4o'', useStream = False, system = None\<rparr>
        \<lparr>input = ''hi there'', streamed = PostError [], answered = ChatOk [''Hello.''] 7, late = []\<rparr>
        \<lparr>messages = [], terminal = [], sent = [], exited = False\<rparr>)
     = [\<lparr>role = User, content = ''hi there''\<rparr>, \<lparr>role = Assistant, content = ''Hello.''\<rparr>]"
    by code_simp
  ultimately show ?thesis using h s by simp
qed

section \<open>The stream decoder\<close>

lemma on_payload_fragment:
  "on_payload parse f data st = (case fragment parse data of None \<Rightarrow> st | Some v \<Rightarrow> f v st)"
  by (auto simp: on_payload_def fragment_def split: option.splits sum.splits)

lemma on_lines_append:
  "on_lines parse f (xs @ ys) st =
     (case on_lines parse f xs st of (s, r) \<Rightarrow> if r then (s, True) else on_lines parse f ys s)"
  by (induction xs arbitrary: st) (auto simp: Let_def)

lemma snd_on_lines: "snd (on_lines parse f ls st) = list_ex sentinel_line ls"
  by (induction ls arbitrary: st) (auto simp: Let_def sentinel_line_def)

lemma on_lines_no_data: "\<not> list_ex data_line ls \<Longrightarrow> on_lines parse f ls st = (st, False)"
  by (induction ls arbitrary: st) (auto simp: data_line_def)

lemma sentinel_is_data: "sentinel_line l \<Longrightarrow> data_line l"
  by (simp add: sentinel_line_def data_line_def)

lemma quiet_no_sentinel: "\<not> list_ex sentinel_line ls \<Longrightarrow> quiet_after_sentinel ls"
  by (induction ls) auto

lemma quiet_append_data:
  "quiet_after_sentinel (xs @ ys) \<Longrightarrow> list_ex sentinel_line xs \<Longrightarrow> \<not> list_ex data_line ys"
  by (induction xs) (auto split: if_splits simp: list_ex_iff)

lemma quiet_append_right: "quiet_after_sentinel (xs @ ys) \<Longrightarrow> quiet_after_sentinel ys"
proof (cases "list_ex sentinel_line xs")
  case True
  assume "quiet_after_sentinel (xs @ ys)"
  with True have "\<not> list_ex data_line ys" by (rule quiet_append_data [rotated])
  then have "\<not> list_ex sentinel_line ys" by (auto simp: list_ex_iff dest: sentinel_is_data)
  then show ?thesis by (rule quiet_no_sentinel)
next
  case False
  assume "quiet_after_sentinel (xs @ ys)"
  with False show ?thesis by (induction xs) (auto split: if_splits)
qed

lemma js_split_append_sep:
  "js_split sep (a @ sep # b) = js_split sep a @ js_split sep b"
  by (induction a) (auto split: list.splits simp: js_split_nonempty)

lemma not_data_line_empty: "\<not> data_line []"
  by (simp add: data_line_def startsWith_def)

lemma on_data_snoc_newline:
  "on_data parse f (a @ [newline]) st = on_lines parse f (js_split newline a) st"
proof -
  have "js_split newline (a @ [newline]) = js_split newline a @ [[]]"
    using js_split_append_sep [of newline a "[]"] by simp
  moreover have "on_lines parse f [[]] s = (s, False)" for s
    by (rule on_lines_no_data) (simp add: not_data_line_empty)
  ultimately show ?thesis
    by (auto simp: on_data_def on_lines_append split: prod.splits)
qed


text \<open>
  Claim C1, as amended. The handler splits every chunk by itself and keeps nothing from
  one chunk to the next. For a well-formed stream cut into chunks at line ends, it makes
  the same calls of \<open>onChunk\<close> and reaches the same resolution as on the text in one
  piece, whatever \<open>JSON.parse\<close> and the callback do.
\<close>

theorem chunks_at_line_ends:
  assumes "line_aligned chunks" and "well_formed (concat chunks)"
  shows "on_chunks parse onChunk chunks st = on_data parse onChunk (concat chunks) st"
  using assms
proof (induction chunks arbitrary: st)
  case Nil
  have "on_lines parse onChunk [[]] st = (st, False)"
    by (rule on_lines_no_data) (simp add: not_data_line_empty)
  then show ?case by (simp add: on_data_def)
next
  case (Cons c cs)
  show ?case
  proof (cases cs)
    case Nil
    then show ?thesis by (simp split: prod.splits)
  next
    case (Cons d ds)
    with Cons.prems(1) have al: "line_aligned cs"
      and cut: "c = [] \<or> last c = newline \<or> (d \<noteq> [] \<and> hd d = newline)"
      by simp_all
    have empty: "on_lines parse onChunk ([] # L) s = on_lines parse onChunk L s" for L s
      by (simp add: startsWith_def)
    have "\<exists>L1 L2. (\<forall>s. on_data parse onChunk c s = on_lines parse onChunk L1 s)
        \<and> js_split newline (concat (c # cs)) = L1 @ L2
        \<and> (\<forall>s. on_data parse onChunk (concat cs) s = on_lines parse onChunk L2 s)
        \<and> (quiet_after_sentinel L2 \<longrightarrow> well_formed (concat cs))"
    proof (cases "c = []")
      case True
      have "\<forall>s. on_data parse onChunk c s = on_lines parse onChunk [] s"
        using True empty [of "[]"] by (simp add: on_data_def)
      moreover have "js_split newline (concat (c # cs)) = [] @ js_split newline (concat cs)"
        using True by simp
      ultimately show ?thesis
        unfolding on_data_def well_formed_def by blast
    next
      case False
      show ?thesis
      proof (cases "last c = newline")
        case True
        define a where "a = butlast c"
        from False True have ca: "c = a @ [newline]"
          unfolding a_def by (metis append_butlast_last_id)
        have "\<forall>s. on_data parse onChunk c s = on_lines parse onChunk (js_split newline a) s"
          unfolding ca by (simp add: on_data_snoc_newline)
        moreover have "js_split newline (concat (c # cs))
            = js_split newline a @ js_split newline (concat cs)"
          unfolding ca using js_split_append_sep [of newline a "concat cs"] by simp
        ultimately show ?thesis
          unfolding on_data_def well_formed_def by blast
      next
        case notlast: False
        with False cut have d: "d \<noteq> []" "hd d = newline" by simp_all
        define r where "r = tl d @ concat ds"
        from d Cons have cs: "concat cs = newline # r"
          unfolding r_def by (cases d) simp_all
        have 1: "\<forall>s. on_data parse onChunk c s = on_lines parse onChunk (js_split newline c) s"
          by (simp add: on_data_def)
        have 2: "js_split newline (concat (c # cs)) = js_split newline c @ js_split newline r"
          using cs js_split_append_sep [of newline c r] by simp
        have 3: "\<forall>s. on_data parse onChunk (concat cs) s
              = on_lines parse onChunk (js_split newline r) s"
          unfolding on_data_def cs using empty by simp
        have "\<not> sentinel_line []" by (simp add: sentinel_line_def startsWith_def)
        then have 4: "quiet_after_sentinel (js_split newline r) \<longrightarrow> well_formed (concat cs)"
          unfolding well_formed_def cs by simp
        from 1 2 3 4 show ?thesis by blast
      qed
    qed
    then obtain L1 L2 where
      head: "\<And>s. on_data parse onChunk c s = on_lines parse onChunk L1 s"
      and lines: "js_split newline (concat (c # cs)) = L1 @ L2"
      and tail: "\<And>s. on_data parse onChunk (concat cs) s = on_lines parse onChunk L2 s"
      and wf: "quiet_after_sentinel L2 \<Longrightarrow> well_formed (concat cs)"
      by blast
    from Cons.prems(2) lines have q: "quiet_after_sentinel (L1 @ L2)"
      by (simp add: well_formed_def)
    then have "quiet_after_sentinel L2" by (rule quiet_append_right)
    then have "well_formed (concat cs)" by (rule wf)
    obtain s1 r1 where one: "on_lines parse onChunk L1 st = (s1, r1)" by fastforce
    have rest: "on_chunks parse onChunk cs s1 = on_lines parse onChunk L2 s1"
      using Cons.IH [OF al \<open>well_formed (concat cs)\<close>, of s1] by (simp only: tail)
    have whole: "on_data parse onChunk (concat (c # cs)) st =
        (if r1 then (s1, True) else on_lines parse onChunk L2 s1)"
      unfolding on_data_def lines on_lines_append one by simp
    have first: "on_chunks parse onChunk (c # cs) st =
        (case on_lines parse onChunk L2 s1 of (s2, r2) \<Rightarrow> (s2, r1 \<or> r2))"
      by (simp only: on_chunks.simps head one rest prod.case)
    show ?thesis
    proof (cases r1)
      case True
      with one have "list_ex sentinel_line L1" using snd_on_lines [of parse onChunk L1 st] by simp
      with q have "\<not> list_ex data_line L2" by (rule quiet_append_data)
      then have "on_lines parse onChunk L2 s1 = (s1, False)" by (rule on_lines_no_data)
      with True first whole show ?thesis by simp
    next
      case False
      with first whole show ?thesis by (simp split: prod.splits)
    qed
  qed
qed

theorem chunks_at_line_ends_witness:
  "line_aligned [''data: {\"choices\":[{\"delta\":{\"content\":\"Hello\"}}]}'',
                 [newline, newline], ''data: [DONE]'' @ [newline]]
   \<and> well_formed (concat [''data: {\"choices\":[{\"delta\":{\"content\":\"Hello\"}}]}'',
                 [newline, newline], ''data: [DONE]'' @ [newline]])
   \<and> on_chunks json_parse (\<lambda>v acc. acc @ [v])
        [''data: {\"choices\":[{\"delta\":{\"content\":\"Hello\"}}]}'',
         [newline, newline], ''data: [DONE]'' @ [newline]] []
     = ([JString ''Hello''], True)"
proof -
  have a: "line_aligned [''data: {\"choices\":[{\"delta\":{\"content\":\"Hello\"}}]}'',
                 [newline, newline], ''data: [DONE]'' @ [newline]]"
    by simp
  have w: "well_formed (concat [''data: {\"choices\":[{\"delta\":{\"content\":\"Hello\"}}]}'',
                 [newline, newline], ''data: [DONE]'' @ [newline]])"
    by code_simp
  have v: "on_data json_parse (\<lambda>v acc. acc @ [v])
      (concat [''data: {\"choices\":[{\"delta\":{\"content\":\"Hello\"}}]}'',
                 [newline, newline], ''data: [DONE]'' @ [newline]]) [] = ([JString ''Hello''], True)"
    by code_simp
  from chunks_at_line_ends [OF a w, of json_parse "\<lambda>v acc. acc @ [v]" "[]"] v a w
  show ?thesis by simp
qed


text \<open>
  The claim as stated fails on a split inside a line: the first chunk ends within the
  payload, which does not parse; the second starts with a line that has no prefix. The
  fragment \<open>Hello\<close> of the text in one piece is never delivered.
\<close>

theorem split_inside_a_line_counterexample:
  "delivered json_parse
     [''data: {\"choices\":[{\"delta\":{\"content\":\"Hel'',
      ''lo\"}}]}'' @ [newline, newline] @ ''data: [DONE]'' @ [newline]]
   \<noteq> delivered json_parse
     [''data: {\"choices\":[{\"delta\":{\"content\":\"Hel'' @
      ''lo\"}}]}'' @ [newline, newline] @ ''data: [DONE]'' @ [newline]]"
proof -
  have "delivered json_parse
     [''data: {\"choices\":[{\"delta\":{\"content\":\"Hel'',
      ''lo\"}}]}'' @ [newline, newline] @ ''data: [DONE]'' @ [newline]] = []"
    by code_simp
  moreover have "delivered json_parse
     [''data: {\"choices\":[{\"delta\":{\"content\":\"Hel'' @
      ''lo\"}}]}'' @ [newline, newline] @ ''data: [DONE]'' @ [newline]] = [JString ''Hello'']"
    by code_simp
  ultimately show ?thesis by simp
qed

lemma toBoolean_Some: "toBoolean c \<Longrightarrow> \<exists>v. c = Some v"
  by (cases c) auto

lemma malformed_fragment: "malformed parse data \<longleftrightarrow> fragment parse data = None"
  by (auto simp: malformed_def fragment_def split: option.splits sum.splits dest: toBoolean_Some)

lemma on_lines_skip:
  assumes "startsWith line ''data: ''" and "trim (slice line 6) \<noteq> ''[DONE]''"
    and "malformed parse (trim (slice line 6))"
  shows "on_lines parse f (line # after) st = on_lines parse f after st"
  using assms by (simp add: on_payload_fragment malformed_fragment)

lemma js_split_no_sep: "sep \<notin> set s \<Longrightarrow> js_split sep s = [s]"
  by (induction s) auto

text \<open>
  Claim C7. A data line whose payload is not the sentinel and is malformed is passed
  over: the lines before and after it are handled as if it were not there, and a chunk
  that starts with it is handled as its rest is. The handler has no failing outcome.
\<close>

theorem malformed_record_is_skipped:
  assumes "startsWith line ''data: ''" and "trim (slice line 6) \<noteq> ''[DONE]''"
    and "malformed parse (trim (slice line 6))"
  shows "on_lines parse onChunk (before @ line # after) st
           = on_lines parse onChunk (before @ after) st
         \<and> (newline \<notin> set line \<longrightarrow>
              on_data parse onChunk (line @ newline # rest) st = on_data parse onChunk rest st)"
proof
  show "on_lines parse onChunk (before @ line # after) st
           = on_lines parse onChunk (before @ after) st"
    by (simp only: on_lines_append [of _ _ before] on_lines_skip [OF assms])
next
  show "newline \<notin> set line \<longrightarrow>
          on_data parse onChunk (line @ newline # rest) st = on_data parse onChunk rest st"
  proof
    assume "newline \<notin> set line"
    then have "js_split newline (line @ newline # rest) = line # js_split newline rest"
      by (simp add: js_split_append_sep js_split_no_sep)
    then show "on_data parse onChunk (line @ newline # rest) st = on_data parse onChunk rest st"
      by (simp only: on_data_def on_lines_skip [OF assms])
  qed
qed

theorem malformed_record_is_skipped_witness:
  "startsWith ''data: {broken'' ''data: ''
   \<and> trim (slice ''data: {broken'' 6) \<noteq> ''[DONE]''
   \<and> malformed json_parse (trim (slice ''data: {broken'' 6))
   \<and> newline \<notin> set ''data: {broken''
   \<and> on_lines json_parse (\<lambda>v acc. acc @ [v])
        ([''data: {\"choices\":[{\"delta\":{\"content\":\"a\"}}]}''] @ ''data: {broken'' #
         [''data: {\"choices\":[{\"delta\":{\"content\":\"b\"}}]}'']) []
      = ([JString ''a'', JString ''b''], False)
   \<and> on_data json_parse (\<lambda>v acc. acc @ [v])
        (''data: {broken'' @ newline #
         ''data: {\"choices\":[{\"delta\":{\"content\":\"b\"}}]}'' @ [newline]) []
      = ([JString ''b''], False)"
proof -
  have 1: "startsWith ''data: {broken'' ''data: ''" by code_simp
  have 2: "trim (slice ''data: {broken'' 6) \<noteq> ''[DONE]''" by code_simp
  have 3: "malformed json_parse (trim (slice ''data: {broken'' 6))" by code_simp
  have 4: "newline \<notin> set ''data: {broken''" by (simp add: newline_def)
  have 5: "on_lines json_parse (\<lambda>v acc. acc @ [v])
        ([''data: {\"choices\":[{\"delta\":{\"content\":\"a\"}}]}''] @
         [''data: {\"choices\":[{\"delta\":{\"content\":\"b\"}}]}'']) []
      = ([JString ''a'', JString ''b''], False)" by code_simp
  have 6: "on_data json_parse (\<lambda>v acc. acc @ [v])
        (''data: {\"choices\":[{\"delta\":{\"content\":\"b\"}}]}'' @ [newline]) []
      = ([JString ''b''], False)" by code_simp
  from malformed_record_is_skipped [OF 1 2 3, of "\<lambda>v acc. acc @ [v]"
      "[''data: {\"choices\":[{\"delta\":{\"content\":\"a\"}}]}'']"
      "[''data: {\"choices\":[{\"delta\":{\"content\":\"b\"}}]}'']" "[]"
      "''data: {\"choices\":[{\"delta\":{\"content\":\"b\"}}]}'' @ [newline]"] 1 2 3 4 5 6
  show ?thesis by simp
qed

lemma dropWhile_padding:
  "\<forall>c \<in> set w. P c \<Longrightarrow> s \<noteq> [] \<Longrightarrow> \<not> P (hd s) \<Longrightarrow> dropWhile P (w @ s) = s"
  by (induction w) (auto intro: dropWhile_fix)

lemma trim_padded:
  assumes "\<forall>c \<in> set w1. isWhiteSpace c" "\<forall>c \<in> set w2. isWhiteSpace c"
    and "s \<noteq> []" "\<not> isWhiteSpace (hd s)" "\<not> isWhiteSpace (last s)"
  shows "trim (w1 @ s @ w2) = s"
proof -
  from assms(1,3,4) have 1: "dropWhile isWhiteSpace (w1 @ s @ w2) = s @ w2"
    using dropWhile_padding [of w1 isWhiteSpace "s @ w2"] by simp
  from assms(2,3,5) have 2: "dropWhile isWhiteSpace (rev w2 @ rev s) = rev s"
    using dropWhile_padding [of "rev w2" isWhiteSpace "rev s"] by (simp add: hd_rev)
  show ?thesis by (simp add: trim_def 1 2)
qed

lemma trim_sentinel:
  assumes "list_all isWhiteSpace w1" "list_all isWhiteSpace w2"
  shows "trim (w1 @ ''[DONE]'' @ w2) = ''[DONE]''"
  using assms by (intro trim_padded) (simp_all add: isWhiteSpace_def list_all_iff)

text \<open>
  Claim C4, as amended. The payload is compared with \<open>[DONE]\<close> after trimming and in
  this letter case only. A data line whose payload is \<open>[DONE]\<close> between white space
  resolves and ends the handling of the chunk, whatever \<open>JSON.parse\<close> would make of the
  payload; a data line resolves exactly when its payload trims to \<open>[DONE]\<close>.
\<close>

theorem sentinel_up_to_white_space:
  assumes "list_all isWhiteSpace w1" and "list_all isWhiteSpace w2"
  shows "on_lines parse onChunk ((''data: '' @ w1 @ ''[DONE]'' @ w2) # lines) st = (st, True)
         \<and> (snd (on_lines parse onChunk [''data: '' @ payload] st) \<longleftrightarrow> trim payload = ''[DONE]'')"
  using trim_sentinel [OF assms] by (simp add: startsWith_def slice_def Let_def)

theorem sentinel_up_to_white_space_witness:
  "list_all isWhiteSpace [CHR '' '', CHR 0x09] \<and> list_all isWhiteSpace [CHR 0x0D]
   \<and> on_lines (\<lambda>text. Some (JString text)) (\<lambda>v acc. acc @ [v])
        ((''data: '' @ [CHR '' '', CHR 0x09] @ ''[DONE]'' @ [CHR 0x0D]) # [''data: more'']) []
      = ([], True)"
proof -
  have 1: "list_all isWhiteSpace [CHR '' '', CHR 0x09]" by (simp add: isWhiteSpace_def)
  have 2: "list_all isWhiteSpace [CHR 0x0D]" by (simp add: isWhiteSpace_def)
  from sentinel_up_to_white_space [OF 1 2, of "\<lambda>text. Some (JString text)" "\<lambda>v acc. acc @ [v]"
      "[''data: more'']" "[]"] 1 2
  show ?thesis by simp
qed

text \<open>
  The claim as stated fails on the sentinel in lower case: it is handed to
  \<open>JSON.parse\<close>, which rejects it, the promise is not resolved, and the next record is
  decoded and delivered.
\<close>

theorem sentinel_in_lower_case_counterexample:
  "on_data json_parse (\<lambda>v acc. acc @ [v])
     (''data: [done]'' @ [newline] @
      ''data: {\"choices\":[{\"delta\":{\"content\":\"x\"}}]}'' @ [newline]) []
   = ([JString ''x''], False)"
  by code_simp

section \<open>The decoder as a fold over the delivered values\<close>

lemma record_on_lines:
  "fst (on_lines parse (\<lambda>v acc. acc @ [v]) ls acc)
     = acc @ fst (on_lines parse (\<lambda>v acc. acc @ [v]) ls [])"
proof (induction ls arbitrary: acc)
  case Nil
  show ?case by simp
next
  case (Cons l ls)
  have p: "on_payload parse (\<lambda>v acc. acc @ [v]) d acc
      = acc @ on_payload parse (\<lambda>v acc. acc @ [v]) d []" for d
    by (simp add: on_payload_fragment split: option.splits)
  show ?case
    using Cons.IH [of "on_payload parse (\<lambda>v acc. acc @ [v]) (trim (slice l 6)) acc"]
      Cons.IH [of "on_payload parse (\<lambda>v acc. acc @ [v]) (trim (slice l 6)) []"]
      Cons.IH [of acc] p [of "trim (slice l 6)"]
    by (simp add: Let_def)
qed

lemma on_lines_fold:
  "on_lines parse f ls st
     = (foldl (\<lambda>s v. f v s) st (fst (on_lines parse (\<lambda>v acc. acc @ [v]) ls [])),
        list_ex sentinel_line ls)"
proof (induction ls arbitrary: st)
  case Nil
  show ?case by simp
next
  case (Cons l ls)
  show ?case
  proof (cases "startsWith l ''data: ''")
    case False
    then show ?thesis using Cons.IH [of st] by (simp add: sentinel_line_def)
  next
    case True
    show ?thesis
    proof (cases "trim (slice l 6) = ''[DONE]''")
      case True
      with \<open>startsWith l ''data: ''\<close> show ?thesis by (simp add: sentinel_line_def)
    next
      case False
      define d where "d = trim (slice l 6)"
      have "fst (on_lines parse (\<lambda>v acc. acc @ [v]) ls (on_payload parse (\<lambda>v acc. acc @ [v]) d []))
          = on_payload parse (\<lambda>v acc. acc @ [v]) d []
            @ fst (on_lines parse (\<lambda>v acc. acc @ [v]) ls [])"
        by (rule record_on_lines)
      with True False show ?thesis
        using Cons.IH [of "on_payload parse f d st"]
        by (simp add: sentinel_line_def d_def [symmetric] on_payload_fragment
            split: option.splits)
    qed
  qed
qed

lemma record_on_chunks:
  "fst (on_chunks parse (\<lambda>v acc. acc @ [v]) cs acc)
     = acc @ fst (on_chunks parse (\<lambda>v acc. acc @ [v]) cs [])"
proof (induction cs arbitrary: acc)
  case Nil
  show ?case by simp
next
  case (Cons c cs)
  obtain a where a: "fst (on_data parse (\<lambda>v acc. acc @ [v]) c []) = a" by simp
  have 1: "fst (on_data parse (\<lambda>v acc. acc @ [v]) c acc) = acc @ a"
    using record_on_lines [of parse "js_split newline c" acc] a by (simp add: on_data_def)
  show ?case
    using Cons.IH [of "acc @ a"] Cons.IH [of a] 1 a
    by (auto split: prod.splits)
qed

lemma on_chunks_fold:
  "on_chunks parse f cs st
     = (foldl (\<lambda>s v. f v s) st (delivered parse cs),
        list_ex (\<lambda>c. list_ex sentinel_line (js_split newline c)) cs)"
proof (induction cs arbitrary: st)
  case Nil
  show ?case by (simp add: delivered_def)
next
  case (Cons c cs)
  define a where "a = fst (on_data parse (\<lambda>v acc. acc @ [v]) c [])"
  have c: "on_data parse g c s = (foldl (\<lambda>s v. g v s) s a, list_ex sentinel_line (js_split newline c))"
    for g :: "json \<Rightarrow> 'b \<Rightarrow> 'b" and s
    unfolding on_data_def a_def by (rule on_lines_fold)
  have "fst (on_chunks parse (\<lambda>v acc. acc @ [v]) (c # cs) [])
      = fst (on_chunks parse (\<lambda>v acc. acc @ [v]) cs a)"
    by (simp add: a_def split: prod.splits)
  then have d: "delivered parse (c # cs) = a @ delivered parse cs"
    using record_on_chunks [of parse cs a] by (simp add: delivered_def)
  have "on_chunks parse f (c # cs) st
      = (case on_chunks parse f cs (foldl (\<lambda>s v. f v s) st a) of
           (st2, r2) \<Rightarrow> (st2, list_ex sentinel_line (js_split newline c) \<or> r2))"
    by (simp only: on_chunks.simps c prod.case)
  also have "\<dots> = (foldl (\<lambda>s v. f v s) st (a @ delivered parse cs),
      list_ex (\<lambda>c. list_ex sentinel_line (js_split newline c)) (c # cs))"
    by (simp add: Cons.IH)
  finally show ?case by (simp only: d)
qed

lemma settlement_Body:
  "settlement parse (Body chunks fin) =
     (if list_ex (\<lambda>c. list_ex sentinel_line (js_split newline c)) chunks then Resolved
      else (case fin of End \<Rightarrow> Resolved | StreamError e \<Rightarrow> Rejected e))"
  by (simp add: settlement_def streamChat_def on_chunks_fold)

lemma chat_onChunk_fold:
  "foldl (\<lambda>tr v. chat_onChunk v tr) (t, r) vs = (t @ map Write (texts vs), r @ concat (texts vs))"
  by (induction vs arbitrary: t r) (auto simp: chat_onChunk_def texts_def split: json.splits)

lemma streamChat_chat:
  "streamChat parse chat_onChunk (Body chunks fin) (t, [])
     = ((t @ map Write (texts (delivered parse chunks)), concat (texts (delivered parse chunks))),
        settlement parse (Body chunks fin))"
  by (simp add: streamChat_def on_chunks_fold chat_onChunk_fold settlement_Body)

lemma late_data_chat:
  "late_data parse chat_onChunk (Body chunks fin) after (t, r) =
     (if list_ex (\<lambda>c. list_ex sentinel_line (js_split newline c)) chunks
      then (t @ map Write (texts (delivered parse after)), r @ concat (texts (delivered parse after)))
      else (t, r))"
  by (simp add: late_data_def on_chunks_fold chat_onChunk_fold)

lemma streamChat_chat_settles:
  "snd (streamChat parse chat_onChunk response (t, [])) = settlement parse response"
  by (cases response) (simp_all add: streamChat_chat, simp add: streamChat_def settlement_def)

section \<open>The transcript across chat turns\<close>

lemma chat_turn_stream_resolved:
  assumes "useStream ses" "streamed ev = Body chunks fin"
    and "settlement parse (streamed ev) = Resolved"
  shows "chat_turn parse ses ev u st =
     st\<lparr>messages := messages st @
           [\<lparr>role = User, content = u\<rparr>,
            \<lparr>role = Assistant, content = concat (texts (delivered parse chunks))\<rparr>],
        terminal := terminal st @ AIPrefix # map Write (texts (delivered parse chunks)) @
           (if list_ex (\<lambda>c. list_ex sentinel_line (js_split newline c)) chunks
            then map Write (texts (delivered parse (late ev))) else []),
        sent := sent st @
           [\<lparr>req_provider = provider ses, req_model = model ses,
             req_messages = messages st @ [\<lparr>role = User, content = u\<rparr>],
             req_stream = Some True\<rparr>]\<rparr>"
  using assms by (simp add: chat_turn_def Let_def print_def streamChat_chat late_data_chat)

lemma chat_turn_stream_rejected:
  assumes "useStream ses" "settlement parse (streamed ev) \<noteq> Resolved"
  shows "messages (chat_turn parse ses ev u st) = messages st @ [\<lparr>role = User, content = u\<rparr>]"
proof -
  obtain t r out where s: "streamChat parse chat_onChunk (streamed ev)
      (terminal st @ [AIPrefix], []) = ((t, r), out)"
    by (metis surj_pair)
  then have "out = settlement parse (streamed ev)"
    using streamChat_chat_settles [of parse "streamed ev" "terminal st @ [AIPrefix]"] by simp
  with assms(2) have "out \<noteq> Resolved" by simp
  then obtain e where "out = Rejected e" by (cases out) auto
  with s assms(1) show ?thesis by (simp add: chat_turn_def Let_def print_def)
qed

lemma chat_turn_sent:
  "sent (chat_turn parse ses ev u st) =
     sent st @
     [\<lparr>req_provider = provider ses, req_model = model ses,
       req_messages = messages st @ [\<lparr>role = User, content = u\<rparr>],
       req_stream = (if useStream ses then Some True else None)\<rparr>]"
  by (simp add: chat_turn_def Let_def print_def
      split: prod.splits settled.splits chat_response.splits list.splits)

lemma chat_turn_failed:
  assumes "turn_fails parse ses ev"
  shows "messages (chat_turn parse ses ev u st) = messages st @ [\<lparr>role = User, content = u\<rparr>]"
proof (cases "useStream ses")
  case True
  with assms show ?thesis by (simp add: turn_fails_def chat_turn_stream_rejected)
next
  case False
  with assms show ?thesis
    by (auto simp: turn_fails_def chat_turn_def Let_def print_def split: chat_response.splits)
qed

text \<open>
  The callback writes each fragment and appends it to \<open>response\<close>, so a sequence of
  fragments leaves the same text on the terminal and in \<open>response\<close>, in order of arrival.
  After a streamed turn that resolves, the assistant message holds the concatenation of
  the fragments delivered before the caller resumed, and the terminal shows these
  fragments after the prefix, followed by the fragments of the late chunks of a body
  that resolved at the sentinel. (Of the delivered values the strings count: the write
  throws on any other value before it is appended, and the handler ignores that.)
\<close>

lemma chat_onChunk_fragments:
  "foldl (\<lambda>tr s. chat_onChunk (JString s) tr) (t, r) fragments
     = (t @ map Write fragments, r @ concat fragments)"
  by (induction fragments arbitrary: t r) (simp_all add: chat_onChunk_def)

lemma streamed_turn:
  assumes "useStream ses" and "chat_line (input ev)" and "streamed ev = Body chunks fin"
    and "settlement parse (streamed ev) = Resolved"
  shows "messages (loop_body parse ses ev st) =
             messages st @
             [\<lparr>role = User, content = trim (input ev)\<rparr>,
              \<lparr>role = Assistant, content = concat (texts (delivered parse chunks))\<rparr>]"
    and "terminal (loop_body parse ses ev st) =
             terminal st @ AIPrefix # map Write (texts (delivered parse chunks)) @
             (if list_ex (\<lambda>c. list_ex sentinel_line (js_split newline c)) chunks
              then map Write (texts (delivered parse (late ev))) else [])"
proof -
  from assms(2) have "loop_body parse ses ev st = chat_turn parse ses ev (trim (input ev)) st"
    by (simp add: loop_body_def chat_line_def Let_def)
  then show "messages (loop_body parse ses ev st) =
             messages st @
             [\<lparr>role = User, content = trim (input ev)\<rparr>,
              \<lparr>role = Assistant, content = concat (texts (delivered parse chunks))\<rparr>]"
    and "terminal (loop_body parse ses ev st) =
             terminal st @ AIPrefix # map Write (texts (delivered parse chunks)) @
             (if list_ex (\<lambda>c. list_ex sentinel_line (js_split newline c)) chunks
              then map Write (texts (delivered parse (late ev))) else [])"
    by (simp_all add: chat_turn_stream_resolved [OF assms(1,3,4)])
qed

text \<open>
  Claim C5. The committed text and the displayed text are the same as long as every
  fragment arrives before the caller resumes. They differ on a body that goes on after
  the sentinel: the handler returns at \<open>[DONE]\<close> and resolves, but stays installed, so the
  fragment \<open>b\<close> of the chunk that is dispatched after the caller has resumed is written
  to the terminal and is missing in the assistant message, which holds \<open>a\<close>.
\<close>

theorem late_fragment_displayed_not_committed:
  "messages (loop_body json_parse
      \<lparr>provider = ''chatgpt'', model = ''gpt-4o'', useStream = True, system = None\<rparr>
      \<lparr>input = ''hi'',
       streamed = Body [''data: {\"choices\":[{\"delta\":{\"content\":\"a\"}}]}'' @ [newline]
                          @ ''data: [DONE]'' @ [newline]] End,
       answered = ChatError [],
       late = [''data: {\"choices\":[{\"delta\":{\"content\":\"b\"}}]}'' @ [newline]]\<rparr>
      \<lparr>messages = [], terminal = [], sent = [], exited = False\<rparr>)
     = [\<lparr>role = User, content = ''hi''\<rparr>, \<lparr>role = Assistant, content = ''a''\<rparr>]
   \<and> terminal (loop_body json_parse
      \<lparr>provider = ''chatgpt'', model = ''gpt-4o'', useStream = True, system = None\<rparr>
      \<lparr>input = ''hi'',
       streamed = Body [''data: {\"choices\":[{\"delta\":{\"content\":\"a\"}}]}'' @ [newline]
                          @ ''data: [DONE]'' @ [newline]] End,
       answered = ChatError [],
       late = [''data: {\"choices\":[{\"delta\":{\"content\":\"b\"}}]}'' @ [newline]]\<rparr>
      \<lparr>messages = [], terminal = [], sent = [], exited = False\<rparr>)
     = [AIPrefix, Write ''a'', Write ''b'']"
  by code_simp

text \<open>
  Claim C2, as amended. The user message is pushed before the \<open>try\<close> block. After a
  chat turn whose call fails, the transcript is the one from before the turn followed by
  the user message of the turn; no assistant message is added. The request of the next
  chat turn carries that user message and no reply to it.
\<close>

theorem failed_turn_keeps_user_message:
  assumes "chat_line (input ev)" and "turn_fails parse ses ev"
  shows "messages (loop_body parse ses ev st)
           = messages st @ [\<lparr>role = User, content = trim (input ev)\<rparr>]
         \<and> (chat_line (input ev') \<longrightarrow>
              req_messages (last (sent (loop_body parse ses ev' (loop_body parse ses ev st))))
                = messages st @ [\<lparr>role = User, content = trim (input ev)\<rparr>,
                                 \<lparr>role = User, content = trim (input ev')\<rparr>])"
proof -
  from assms(1) have "loop_body parse ses ev st = chat_turn parse ses ev (trim (input ev)) st"
    by (simp add: loop_body_def chat_line_def Let_def)
  with assms(2) have 1: "messages (loop_body parse ses ev st)
      = messages st @ [\<lparr>role = User, content = trim (input ev)\<rparr>]"
    by (simp add: chat_turn_failed)
  have "req_messages (last (sent (loop_body parse ses ev' s)))
      = messages s @ [\<lparr>role = User, content = trim (input ev')\<rparr>]"
    if "chat_line (input ev')" for s
  proof -
    from that have "loop_body parse ses ev' s = chat_turn parse ses ev' (trim (input ev')) s"
      by (simp add: loop_body_def chat_line_def Let_def)
    then show ?thesis by (simp add: chat_turn_sent)
  qed
  from this [of "loop_body parse ses ev st"] 1 show ?thesis by simp
qed

theorem failed_turn_keeps_user_message_witness:
  "chat_line (input
      \<lparr>input = ''more'',
       streamed = Body [''data: {\"choices\":[{\"delta\":{\"content\":\"Par\"}}]}'' @ [newline]]
                    (StreamError ''aborted''),
       answered = ChatError [], late = []\<rparr>)
   \<and> turn_fails json_parse
      \<lparr>provider = ''chatgpt'', model = ''gpt-4o'', useStream = True, system = None\<rparr>
      \<lparr>input = ''more'',
       streamed = Body [''data: {\"choices\":[{\"delta\":{\"content\":\"Par\"}}]}'' @ [newline]]
                    (StreamError ''aborted''),
       answered = ChatError [], late = []\<rparr>
   \<and> messages (loop_body json_parse
      \<lparr>provider = ''chatgpt'', model = ''gpt-4o'', useStream = True, system = None\<rparr>
      \<lparr>input = ''more'',
       streamed = Body [''data: {\"choices\":[{\"delta\":{\"content\":\"Par\"}}]}'' @ [newline]]
                    (StreamError ''aborted''),
       answered = ChatError [], late = []\<rparr>
      \<lparr>messages = [\<lparr>role = User, content = ''hi''\<rparr>, \<lparr>role = Assistant, content = ''Hello''\<rparr>],
       terminal = [], sent = [], exited = False\<rparr>)
     = [\<lparr>role = User, content = ''hi''\<rparr>, \<lparr>role = Assistant, content = ''Hello''\<rparr>,
        \<lparr>role = User, content = ''more''\<rparr>]
   \<and> chat_line (input \<lparr>input = ''again'', streamed = PostError ''timeout'', answered = ChatError [], late = []\<rparr>)
   \<and> req_messages (last (sent (loop_body json_parse
      \<lparr>provider = ''chatgpt'', model = ''gpt-4o'', useStream = True, system = None\<rparr>
      \<lparr>input = ''again'', streamed = PostError ''timeout'', answered = ChatError [], late = []\<rparr>
      (loop_body json_parse
      \<lparr>provider = ''chatgpt'', model = ''gpt-4o'', useStream = True, system = None\<rparr>
      \<lparr>input = ''more'',
       streamed = Body [''data: {\"choices\":[{\"delta\":{\"content\":\"Par\"}}]}'' @ [newline]]
                    (StreamError ''aborted''),
       answered = ChatError [], late = []\<rparr>
      \<lparr>messages = [\<lparr>role = User, content = ''hi''\<rparr>, \<lparr>role = Assistant, content = ''Hello''\<rparr>],
       terminal = [], sent = [], exited = False\<rparr>))))
     = [\<lparr>role = User, content = ''hi''\<rparr>, \<lparr>role = Assistant, content = ''Hello''\<rparr>,
        \<lparr>role = User, content = ''more''\<rparr>, \<lparr>role = User, content = ''again''\<rparr>]"
proof -
  have 1: "chat_line (input
      \<lparr>input = ''more'',
       streamed = Body [''data: {\"choices\":[{\"delta\":{\"content\":\"Par\"}}]}'' @ [newline]]
                    (StreamError ''aborted''),
       answered = ChatError [], late = []\<rparr>)"
    by code_simp
  have 2: "turn_fails json_parse
      \<lparr>provider = ''chatgpt'', model = ''gpt-4o'', useStream = True, system = None\<rparr>
      \<lparr>input = ''more'',
       streamed = Body [''data: {\"choices\":[{\"delta\":{\"content\":\"Par\"}}]}'' @ [newline]]
                    (StreamError ''aborted''),
       answered = ChatError [], late = []\<rparr>"
    by code_simp
  have 3: "trim ''more'' = ''more''" by code_simp
  have 4: "chat_line (input \<lparr>input = ''again'', streamed = PostError ''timeout'', answered = ChatError [], late = []\<rparr>)"
    by code_simp
  have 5: "trim ''again'' = ''again''" by code_simp
  from failed_turn_keeps_user_message [OF 1 2,
      where ev' = "\<lparr>input = ''again'', streamed = PostError ''timeout'', answered = ChatError [], late = []\<rparr>"
      and st = "\<lparr>messages = [\<lparr>role = User, content = ''hi''\<rparr>, \<lparr>role = Assistant, content = ''Hello''\<rparr>],
       terminal = [], sent = [], exited = False\<rparr>"] 1 2 3 4 5
  show ?thesis by simp
qed

text \<open>
  The claim as stated fails: after a stream that breaks off, the transcript is one
  message longer than before the turn.
\<close>

theorem failed_turn_counterexample:
  "turn_fails json_parse
      \<lparr>provider = ''chatgpt'', model = ''gpt-4o'', useStream = True, system = None\<rparr>
      \<lparr>input = ''more'',
       streamed = Body [''data: {\"choices\":[{\"delta\":{\"content\":\"Par\"}}]}'' @ [newline]]
                    (StreamError ''aborted''),
       answered = ChatError [], late = []\<rparr>
   \<and> messages (loop_body json_parse
      \<lparr>provider = ''chatgpt'', model = ''gpt-4o'', useStream = True, system = None\<rparr>
      \<lparr>input = ''more'',
       streamed = Body [''data: {\"choices\":[{\"delta\":{\"content\":\"Par\"}}]}'' @ [newline]]
                    (StreamError ''aborted''),
       answered = ChatError [], late = []\<rparr>
      \<lparr>messages = [\<lparr>role = User, content = ''hi''\<rparr>, \<lparr>role = Assistant, content = ''Hello''\<rparr>],
       terminal = [], sent = [], exited = False\<rparr>)
     \<noteq> messages
      \<lparr>messages = [\<lparr>role = User, content = ''hi''\<rparr>, \<lparr>role = Assistant, content = ''Hello''\<rparr>],
       terminal = [], sent = [], exited = False\<rparr>"
  by code_simp

lemma slash_command_messages:
  "messages (slash_command ses u st) = messages st
   \<or> messages (slash_command ses u st) = system_messages ses"
  by (simp add: slash_command_def print_def Let_def split: list.splits)

lemma system_messages_role: "m \<in> set (system_messages ses) \<Longrightarrow> role m = System"
  by (auto simp: system_messages_def split: option.splits if_splits)

lemma chat_turn_assistant:
  assumes "m \<in> set (messages (chat_turn parse ses ev (trim (input ev)) st))"
    and "role m = Assistant" and "chat_line (input ev)"
  shows "m \<in> set (messages st) \<or> complete_reply parse ses ev = Some (content m)"
proof (cases "turn_fails parse ses ev")
  case True
  with assms(1,2) show ?thesis by (auto simp: chat_turn_failed)
next
  case False
  show ?thesis
  proof (cases "useStream ses")
    case True
    with False have r: "settlement parse (streamed ev) = Resolved" by (simp add: turn_fails_def)
    then obtain chunks fin where b: "streamed ev = Body chunks fin"
      by (cases "streamed ev") (auto simp: settlement_def streamChat_def)
    from assms True b r show ?thesis
      by (auto simp: chat_turn_stream_resolved [OF True b r] complete_reply_def)
  next
    case stream: False
    with False obtain c cs used where "answered ev = ChatOk (c # cs) used"
      by (auto simp: turn_fails_def neq_Nil_conv split: chat_response.splits)
    with assms stream show ?thesis
      by (auto simp: chat_turn_def Let_def print_def complete_reply_def)
  qed
qed

lemma loop_body_assistant:
  assumes "m \<in> set (messages (loop_body parse ses ev st))" and "role m = Assistant"
  shows "m \<in> set (messages st) \<or> complete_reply parse ses ev = Some (content m)"
proof (cases "trim (input ev) = []")
  case True
  with assms(1) show ?thesis by (simp add: loop_body_def)
next
  case False
  show ?thesis
  proof (cases "startsWith (trim (input ev)) ''/''")
    case True
    with False have "loop_body parse ses ev st = slash_command ses (trim (input ev)) st"
      by (simp add: loop_body_def Let_def)
    with assms slash_command_messages [of ses "trim (input ev)" st]
      system_messages_role [of m ses] show ?thesis
      by auto
  next
    case slash: False
    with False have "loop_body parse ses ev st = chat_turn parse ses ev (trim (input ev)) st"
      and "chat_line (input ev)"
      by (simp_all add: loop_body_def Let_def chat_line_def)
    with assms show ?thesis by (simp add: chat_turn_assistant)
  qed
qed

lemma chat_loop_assistant:
  assumes "m \<in> set (messages (chat_loop parse ses evs st))" and "role m = Assistant"
  shows "m \<in> set (messages st) \<or> (\<exists>ev \<in> set evs. complete_reply parse ses ev = Some (content m))"
  using assms
proof (induction evs arbitrary: st)
  case Nil
  then show ?case by simp
next
  case (Cons ev evs)
  show ?case
  proof (cases "exited st")
    case True
    with Cons.prems show ?thesis by simp
  next
    case False
    with Cons.prems have "m \<in> set (messages (chat_loop parse ses evs (loop_body parse ses ev st)))"
      by simp
    from Cons.IH [OF this Cons.prems(2)] loop_body_assistant [of m parse ses ev st] Cons.prems(2)
    show ?thesis by auto
  qed
qed

text \<open>
  Claim C3. In every state the loop reaches from the start of a session, each assistant
  message of the transcript is the complete reply of one of the turns so far: the text
  of all the fragments of a stream up to the return of its call, which resolved, or the
  content of a response that the other call returned. A turn that fails adds none, and
  neither do chunks that arrive late.
\<close>

theorem no_partial_assistant_message:
  assumes "m \<in> set (messages (chat_loop parse ses evs (initial ses)))" and "role m = Assistant"
  shows "\<exists>ev \<in> set evs. complete_reply parse ses ev = Some (content m)"
proof -
  from assms(2) have "m \<notin> set (messages (initial ses))"
    by (auto simp: initial_def dest: system_messages_role)
  with chat_loop_assistant [OF assms] show ?thesis by simp
qed

theorem no_partial_assistant_message_witness:
  "\<lparr>role = Assistant, content = ''Hello''\<rparr> \<in> set (messages (chat_loop json_parse
      \<lparr>provider = ''chatgpt'', model = ''gpt-4o'', useStream = True, system = Some ''You are terse.''\<rparr>
      [\<lparr>input = ''hi'',
        streamed = Body [''data: {\"choices\":[{\"delta\":{\"content\":\"Hel\"}}]}'' @ [newline],
                         ''data: {\"choices\":[{\"delta\":{\"content\":\"lo\"}}]}'' @ [newline, newline]
                           @ ''data: [DONE]'' @ [newline]] End,
        answered = ChatError [], late = []\<rparr>,
       \<lparr>input = ''more'',
        streamed = Body [''data: {\"choices\":[{\"delta\":{\"content\":\"Par\"}}]}'' @ [newline]]
                     (StreamError ''aborted''),
        answered = ChatError [], late = []\<rparr>]
      (initial \<lparr>provider = ''chatgpt'', model = ''gpt-4o'', useStream = True,
                system = Some ''You are terse.''\<rparr>)))
   \<and> role \<lparr>role = Assistant, content = ''Hello''\<rparr> = Assistant
   \<and> (\<exists>ev \<in> set
      [\<lparr>input = ''hi'',
        streamed = Body [''data: {\"choices\":[{\"delta\":{\"content\":\"Hel\"}}]}'' @ [newline],
                         ''data: {\"choices\":[{\"delta\":{\"content\":\"lo\"}}]}'' @ [newline, newline]
                           @ ''data: [DONE]'' @ [newline]] End,
        answered = ChatError [], late = []\<rparr>,
       \<lparr>input = ''more'',
        streamed = Body [''data: {\"choices\":[{\"delta\":{\"content\":\"Par\"}}]}'' @ [newline]]
                     (StreamError ''aborted''),
        answered = ChatError [], late = []\<rparr>].
      complete_reply json_parse
        \<lparr>provider = ''chatgpt'', model = ''gpt-4o'', useStream = True, system = Some ''You are terse.''\<rparr>
        ev = Some (content \<lparr>role = Assistant, content = ''Hello''\<rparr>))"
proof -
  have "messages (chat_loop json_parse
      \<lparr>provider = ''chatgpt'', model = ''gpt-4o'', useStream = True, system = Some ''You are terse.''\<rparr>
      [\<lparr>input = ''hi'',
        streamed = Body [''data: {\"choices\":[{\"delta\":{\"content\":\"Hel\"}}]}'' @ [newline],
                         ''data: {\"choices\":[{\"delta\":{\"content\":\"lo\"}}]}'' @ [newline, newline]
                           @ ''data: [DONE]'' @ [newline]] End,
        answered = ChatError [], late = []\<rparr>,
       \<lparr>input = ''more'',
        streamed = Body [''data: {\"choices\":[{\"delta\":{\"content\":\"Par\"}}]}'' @ [newline]]
                     (StreamError ''aborted''),
        answered = ChatError [], late = []\<rparr>]
      (initial \<lparr>provider = ''chatgpt'', model = ''gpt-4o'', useStream = True,
                system = Some ''You are terse.''\<rparr>))
    = [\<lparr>role = System, content = ''You are terse.''\<rparr>,
       \<lparr>role = User, content = ''hi''\<rparr>,
       \<lparr>role = Assistant, content = ''Hello''\<rparr>,
       \<lparr>role = User, content = ''more''\<rparr>]"
    by code_simp
  then have 1: "\<lparr>role = Assistant, content = ''Hello''\<rparr> \<in> set (messages (chat_loop json_parse
      \<lparr>provider = ''chatgpt'', model = ''gpt-4o'', useStream = True, system = Some ''You are terse.''\<rparr>
      [\<lparr>input = ''hi'',
        streamed = Body [''data: {\"choices\":[{\"delta\":{\"content\":\"Hel\"}}]}'' @ [newline],
                         ''data: {\"choices\":[{\"delta\":{\"content\":\"lo\"}}]}'' @ [newline, newline]
                           @ ''data: [DONE]'' @ [newline]] End,
        answered = ChatError [], late = []\<rparr>,
       \<lparr>input = ''more'',
        streamed = Body [''data: {\"choices\":[{\"delta\":{\"content\":\"Par\"}}]}'' @ [newline]]
                     (StreamError ''aborted''),
        answered = ChatError [], late = []\<rparr>]
      (initial \<lparr>provider = ''chatgpt'', model = ''gpt-4o'', useStream = True,
                system = Some ''You are terse.''\<rparr>)))"
    by simp
  have 2: "role \<lparr>role = Assistant, content = ''Hello''\<rparr> = Assistant" by simp
  from no_partial_assistant_message [OF 1 2] 1 2 show ?thesis by blast
qed

text \<open>
  Claim C8. The \<open>provider\<close> case of the \<open>switch\<close> prints that it switched and changes
  nothing: \<open>provider\<close> is a constant of the session. After \<open>/provider claude\<close> the next
  request still names the provider the session started with.
\<close>

theorem provider_command_changes_nothing:
  "chatCommand json_parse
     \<lparr>opt_provider = None, opt_model = None, opt_system = None, opt_stream = None\<rparr>
     \<lparr>apiKey = Some ''ci_0123456789abcdefghij'', defaultProvider = Some ''chatgpt'',
      defaultModel = Some ''gpt-4o'', streamResponse = Some False\<rparr>
     [\<lparr>input = ''/provider claude'', streamed = PostError [], answered = ChatError [], late = []\<rparr>,
      \<lparr>input = ''hi'', streamed = PostError [], answered = ChatOk [''Hello.''] 7, late = []\<rparr>]
   = Some
     \<lparr>messages = [\<lparr>role = User, content = ''hi''\<rparr>, \<lparr>role = Assistant, content = ''Hello.''\<rparr>],
      terminal = [ClearScreen, Connected ''chatgpt'' ''gpt-4o'', Switched ''claude'',
                  AILabel, Reply ''Hello.'', Tokens 7],
      sent = [\<lparr>req_provider = ''chatgpt'', req_model = ''gpt-4o'',
               req_messages = [\<lparr>role = User, content = ''hi''\<rparr>], req_stream = None\<rparr>],
      exited = False\<rparr>"
  by code_simp

end
